theory Spec2Isabelle
  imports Main "HOL-Library.AList" "HOL-Library.Multiset"
begin

section \<open>Letterboxd streaming availability: the fetch-and-cache pipeline\<close>

text \<open>
  A shallow embedding of \<^verbatim>\<open>letterboxd_streaming.py\<close>. The cache is whatever
  \<open>json.load\<close> returned, a JSON value of any shape, later updated by \<open>main\<close>; the
  operations of Python on it (\<open>in\<close>, \<open>[]\<close>, item assignment) raise as Python's do.
  A dictionary is an association list, which keeps Python's insertion order. The
  dictionaries the program builds itself, with a fixed set of keys, are records. The
  browser, the network, the JSON codec, the file system and the terminal are the
  environment: their behaviour at each call is a parameter of the function that makes the
  call, and every call returns or raises. Text is ASCII: a \<open>char\<close> is a byte.
  The messages of the exceptions Python itself raises are those of CPython 3.10.
  The model starts where \<open>main\<close> has loaded the cache, has its driver and a list of
  films: without a driver, or with no film, \<open>main\<close> returns before any task is
  submitted, and \<open>len(cache)\<close> raises before that on a cache that has no length
  (\<open>null\<close>, a boolean, a number). The worker and the loop are modelled on every
  cache all the same.
\<close>

subsection \<open>Data\<close>

text \<open>
  The values \<open>json.load\<close> returns. A number is an integer: the program never computes
  with a number, and fractions are left out.
\<close>

datatype json =
    JNull
  | JBool bool
  | JNumber int
  | JString string
  | JArray "json list"
  | JObject "(string \<times> json) list"

text \<open>The dictionaries built by \<open>scrape_letterboxd_popular\<close>: \<open>{'title': ..., 'url': ...}\<close>.\<close>

record film =
  film_title :: string
  film_url :: string

text \<open>
  The dictionaries returned by \<open>scrape_film_worker\<close> and collected by \<open>main\<close>. The
  value under \<open>streaming\<close> is a string when the worker fetched it, and whatever the
  cache holds when it comes from the cache.
\<close>

record result =
  index :: nat
  title :: string
  url :: string
  streaming :: json
  cached :: bool

text \<open>
  Exceptions, by the classes the handlers of the program tell apart; \<open>Exception\<close> stands for
  every other subclass of Python's \<open>Exception\<close> (\<open>KeyError\<close>, \<open>TypeError\<close>, ...).
  The argument is \<open>str(e)\<close>.
\<close>

datatype py_exception = JSONDecodeError string | IOError string | Exception string

fun str :: "py_exception \<Rightarrow> string" where
  "str (JSONDecodeError m) = m"
| "str (IOError m) = m"
| "str (Exception m) = m"

subsection \<open>String operations of Python, on ASCII text\<close>

definition startswith :: "string \<Rightarrow> string \<Rightarrow> bool" where
  "startswith s p = (take (length p) s = p)"

definition is_lower :: "char \<Rightarrow> bool" where
  "is_lower c = (97 \<le> (of_char c :: nat) \<and> (of_char c :: nat) \<le> 122)"

definition is_upper :: "char \<Rightarrow> bool" where
  "is_upper c = (65 \<le> (of_char c :: nat) \<and> (of_char c :: nat) \<le> 90)"

definition to_lower :: "char \<Rightarrow> char" where
  "to_lower c = (if is_upper c then char_of ((of_char c :: nat) + 32) else c)"

definition to_upper :: "char \<Rightarrow> char" where
  "to_upper c = (if is_lower c then char_of ((of_char c :: nat) - 32) else c)"

definition lower :: "string \<Rightarrow> string" where
  "lower s = map to_lower s"

text \<open>
  \<open>str.title()\<close>: a cased character is upper-cased when the character before it is not
  cased, and lower-cased otherwise.
\<close>

fun title_from :: "bool \<Rightarrow> string \<Rightarrow> string" where
  "title_from prev_cased [] = []"
| "title_from prev_cased (c # cs) =
     (if prev_cased then to_lower c else to_upper c)
       # title_from (is_lower c \<or> is_upper c) cs"

definition title_case :: "string \<Rightarrow> string" where
  "title_case s = title_from False s"

definition replace_char :: "char \<Rightarrow> char \<Rightarrow> string \<Rightarrow> string" where
  "replace_char a b s = map (\<lambda>c. if c = a then b else c) s"

text \<open>\<open>str.strip()\<close> removes the ASCII whitespace at both ends.\<close>

definition is_space :: "char \<Rightarrow> bool" where
  "is_space c = ((of_char c :: nat) = 32 \<or> (9 \<le> (of_char c :: nat) \<and> (of_char c :: nat) \<le> 13)
     \<or> (28 \<le> (of_char c :: nat) \<and> (of_char c :: nat) \<le> 31))"

definition strip :: "string \<Rightarrow> string" where
  "strip s = rev (dropWhile is_space (rev (dropWhile is_space s)))"

text \<open>\<open>s.split(sep)\<close> for a separator of one character.\<close>

fun split_on :: "char \<Rightarrow> string \<Rightarrow> string list" where
  "split_on sep [] = [[]]"
| "split_on sep (c # cs) =
     (if c = sep then [] # split_on sep cs
      else (case split_on sep cs of
              [] \<Rightarrow> [[c]]
            | w # ws \<Rightarrow> (c # w) # ws))"

fun join :: "string \<Rightarrow> string list \<Rightarrow> string" where
  "join sep [] = []"
| "join sep [x] = x"
| "join sep (x # y # ys) = x @ sep @ join sep (y # ys)"

text \<open>\<open>p in s\<close> on strings: \<open>p\<close> occurs in \<open>s\<close>.\<close>

fun contains :: "string \<Rightarrow> string \<Rightarrow> bool" where
  "contains [] p = (p = [])"
| "contains (c # cs) p = (startswith (c # cs) p \<or> contains cs p)"

subsection \<open>Operations of Python on a JSON value\<close>

text \<open>The name of the type of a value, as it stands in the messages of \<open>TypeError\<close>.\<close>

fun type_name :: "json \<Rightarrow> string" where
  "type_name JNull = ''NoneType''"
| "type_name (JBool b) = ''bool''"
| "type_name (JNumber n) = ''int''"
| "type_name (JString s) = ''str''"
| "type_name (JArray xs) = ''list''"
| "type_name (JObject kvs) = ''dict''"

text \<open>The truth value of a value in a condition.\<close>

fun truthy :: "json \<Rightarrow> bool" where
  "truthy JNull = False"
| "truthy (JBool b) = b"
| "truthy (JNumber n) = (n \<noteq> 0)"
| "truthy (JString s) = (s \<noteq> [])"
| "truthy (JArray xs) = (xs \<noteq> [])"
| "truthy (JObject kvs) = (kvs \<noteq> [])"

text \<open>
  \<open>k in v\<close> for a string \<open>k\<close>: a key of a dictionary, an element of a list, a part of a
  string; a \<open>TypeError\<close> on anything else.
\<close>

fun py_in :: "string \<Rightarrow> json \<Rightarrow> py_exception + bool" where
  "py_in k (JObject kvs) = Inr (map_of kvs k \<noteq> None)"
| "py_in k (JArray xs) = Inr (JString k \<in> set xs)"
| "py_in k (JString s) = Inr (contains s k)"
| "py_in k v = Inl (Exception (''argument of type '' @ [CHR 0x27] @ type_name v @ [CHR 0x27]
                                @ '' is not iterable''))"

text \<open>\<open>v[k]\<close> for a string \<open>k\<close>: the value under a key of a dictionary; \<open>KeyError\<close>
  when the key is missing, \<open>TypeError\<close> on anything that is not a dictionary.\<close>

fun py_getitem :: "json \<Rightarrow> string \<Rightarrow> py_exception + json" where
  "py_getitem (JObject kvs) k =
     (case map_of kvs k of
        Some x \<Rightarrow> Inr x
      | None \<Rightarrow> Inl (Exception ([CHR 0x27] @ k @ [CHR 0x27])))"
| "py_getitem (JArray xs) k = Inl (Exception ''list indices must be integers or slices, not str'')"
| "py_getitem (JString s) k = Inl (Exception ''string indices must be integers'')"
| "py_getitem v k = Inl (Exception ([CHR 0x27] @ type_name v @ [CHR 0x27]
                                     @ '' object is not subscriptable''))"

text \<open>\<open>v[k] = x\<close> for a string \<open>k\<close>: a dictionary is updated, anything else raises
  \<open>TypeError\<close>.\<close>

fun py_setitem :: "json \<Rightarrow> string \<Rightarrow> json \<Rightarrow> py_exception + json" where
  "py_setitem (JObject kvs) k x = Inr (JObject (AList.update k x kvs))"
| "py_setitem (JArray xs) k x = Inl (Exception ''list indices must be integers or slices, not str'')"
| "py_setitem v k x = Inl (Exception ([CHR 0x27] @ type_name v @ [CHR 0x27]
                                       @ '' object does not support item assignment''))"

subsection \<open>The cache file\<close>

text \<open>
  The file \<^verbatim>\<open>streaming_cache.json\<close> is its text, or \<open>None\<close> when it does not exist.
  \<open>read\<close> is what \<open>open(CACHE_FILE, 'r')\<close> and \<open>json.load\<close> give on a text: the
  decoded value or the exception raised. \<open>load_cache\<close> prints nothing on any path.
\<close>

definition load_cache ::
  "(string \<Rightarrow> py_exception + json) \<Rightarrow> string option \<Rightarrow> (py_exception + json) \<times> string list" where
  "load_cache read disk =
     (case disk of
        None \<Rightarrow> (Inr (JObject []), [])
      | Some text \<Rightarrow>
          (case read text of
             Inr c \<Rightarrow> (Inr c, [])
           | Inl (JSONDecodeError m) \<Rightarrow> (Inr (JObject []), [])
           | Inl (IOError m) \<Rightarrow> (Inr (JObject []), [])
           | Inl (Exception m) \<Rightarrow> (Inl (Exception m), [])))"

text \<open>
  What the environment does with \<open>open(CACHE_FILE, 'w')\<close> and \<open>json.dump\<close>: the write
  goes through, or \<open>open\<close> raises an \<open>IOError\<close> and the file is as before, or a write
  raises an \<open>IOError\<close> after the first \<open>n\<close> characters have reached the file.
\<close>

datatype write_outcome = Written | OpenFails string | WriteFails string nat

text \<open>
  What a call of \<open>print\<close> does: \<open>None\<close> when it prints, the message of the exception
  when it raises.
\<close>

type_synonym print_outcome = "string option"

text \<open>
  \<open>dumps\<close> is the text \<open>json.dump(cache, f, indent=2)\<close> writes. The result is the
  exception that leaves \<open>save_cache\<close>, if any (the warning is printed inside the
  handler, so a \<open>print\<close> that raises there is not caught), the file, and the lines
  printed.
\<close>

definition save_cache ::
  "(json \<Rightarrow> string) \<Rightarrow> write_outcome \<Rightarrow> print_outcome \<Rightarrow> json \<Rightarrow> string option
     \<Rightarrow> py_exception option \<times> string option \<times> string list" where
  "save_cache dumps wo pw c disk =
     (case wo of
        Written \<Rightarrow> (None, Some (dumps c), [])
      | OpenFails m \<Rightarrow>
          (case pw of
             None \<Rightarrow> (None, disk, [''Warning: Could not save cache: '' @ m])
           | Some pm \<Rightarrow> (Some (Exception pm), disk, []))
      | WriteFails m n \<Rightarrow>
          (case pw of
             None \<Rightarrow> (None, Some (take n (dumps c)), [''Warning: Could not save cache: '' @ m])
           | Some pm \<Rightarrow> (Some (Exception pm), Some (take n (dumps c)), [])))"

subsection \<open>The film page\<close>

text \<open>
  The part of a film page the scraper looks at: the \<open>div\<close> with id \<open>watch\<close>, if any; in
  it the \<open>section\<close> of class \<open>services\<close>, if any, as the class lists of its paragraphs of
  class \<open>service\<close>; and the text of the \<open>div\<close> (\<open>get_text(strip=True)\<close>).
\<close>

datatype watch_div = WatchDiv (services_section: "string list list option") (get_text: string)

text \<open>
  What \<open>driver.get\<close> and the parse give: an exception with its message, or the page.
\<close>

datatype get_outcome = GetRaises string | PageSource "watch_div option"

text \<open>The first class that starts with \<open>-\<close> and is not \<open>-showmore\<close> names the service.\<close>

fun service_name :: "string list \<Rightarrow> string option" where
  "service_name [] = None"
| "service_name (cls # classes) =
     (if startswith cls ''-'' \<and> cls \<noteq> ''-showmore''
      then Some (title_case (replace_char CHR ''-'' CHR '' '' (drop 1 cls)))
      else service_name classes)"

text \<open>Duplicates removed, the first occurrence kept.\<close>

fun unique_services :: "string list \<Rightarrow> string list \<Rightarrow> string list" where
  "unique_services acc [] = acc"
| "unique_services acc (s # ss) =
     unique_services (if s \<in> set acc then acc else acc @ [s]) ss"

definition scrape_streaming_info :: "get_outcome \<Rightarrow> string" where
  "scrape_streaming_info g =
     (case g of
        GetRaises m \<Rightarrow> ''Error: '' @ m
      | PageSource None \<Rightarrow> ''No streaming info available''
      | PageSource (Some (WatchDiv (Some service_paragraphs) text)) \<Rightarrow>
          (let services = List.map_filter service_name service_paragraphs
           in if service_paragraphs \<noteq> [] \<and> services \<noteq> []
              then join '', '' (unique_services [] services)
              else ''No streaming info available'')
      | PageSource (Some (WatchDiv None text)) \<Rightarrow>
          (let lines = filter (\<lambda>l. l \<noteq> []) (map strip (split_on CHR 0x0A text));
               filtered_lines = filter (\<lambda>l. lower l \<notin> set [''where to watch'', ''trailer'']) lines
           in if text \<noteq> [] \<and> \<not> contains (lower text) ''trailer'' \<and> filtered_lines \<noteq> []
              then take 100 (hd filtered_lines)
              else ''No streaming info available''))"

subsection \<open>The worker\<close>

text \<open>
  What the environment does for one task: \<open>setup_driver\<close> returns \<open>None\<close>; or it
  raises (a \<open>print\<close> in its handler raises); or it returns a driver, with what
  \<open>driver.get\<close> gives and the message of the exception \<open>driver.quit()\<close> raises, if it
  raises.
\<close>

datatype driver_outcome = NoDriver | SetupRaises string | Driver get_outcome "string option"

text \<open>The calls a worker makes to the environment, in order.\<close>

datatype effect = SetupDriver | Get string | Quit

text \<open>\<open>cache[url]['streaming']\<close>: it raises when the entry is not a dictionary or has
  no such key.\<close>

definition cached_streaming :: "json \<Rightarrow> string \<Rightarrow> py_exception + json" where
  "cached_streaming c u =
     (case py_getitem c u of
        Inl e \<Rightarrow> Inl e
      | Inr entry \<Rightarrow> py_getitem entry ''streaming'')"

text \<open>
  The worker returns a result or raises, and makes calls to the environment. On a hit it
  returns before \<open>setup_driver\<close>.
\<close>

definition scrape_film_worker ::
  "driver_outcome \<Rightarrow> nat \<Rightarrow> film \<Rightarrow> json \<Rightarrow> (py_exception + result) \<times> effect list" where
  "scrape_film_worker w film_index film c =
     (case py_in (film_url film) c of
        Inl e \<Rightarrow> (Inl e, [])
      | Inr True \<Rightarrow>
          (case cached_streaming c (film_url film) of
             Inl e \<Rightarrow> (Inl e, [])
           | Inr v \<Rightarrow>
               (Inr \<lparr>index = film_index, title = film_title film, url = film_url film,
                     streaming = v, cached = True\<rparr>, []))
      | Inr False \<Rightarrow>
          (case w of
             NoDriver \<Rightarrow>
               (Inr \<lparr>index = film_index, title = film_title film, url = film_url film,
                     streaming = JString ''Error: Could not create driver'', cached = False\<rparr>,
                [SetupDriver])
           | SetupRaises m \<Rightarrow> (Inl (Exception m), [SetupDriver])
           | Driver g q \<Rightarrow>
               (let streaming_info = scrape_streaming_info g
                in ((case q of
                       None \<Rightarrow>
                         Inr \<lparr>index = film_index, title = film_title film, url = film_url film,
                              streaming = JString streaming_info, cached = False\<rparr>
                     | Some m \<Rightarrow> Inl (Exception m)),
                    [SetupDriver, Get (film_url film), Quit]))))"

subsection \<open>The coordinator\<close>

text \<open>The test of \<open>main\<close> on a string before it writes a fetched result to the cache.\<close>

definition should_cache :: "string \<Rightarrow> bool" where
  "should_cache s =
     (s \<noteq> [] \<and> \<not> startswith s ''Not streaming'' \<and> \<not> startswith s ''Error:'')"

text \<open>
  The same test on any value: \<open>streaming and not streaming.startswith(...) and ...\<close>
  stops at a value that is false, and raises \<open>AttributeError\<close> at a true value that is
  not a string.
\<close>

definition should_cache_value :: "json \<Rightarrow> py_exception + bool" where
  "should_cache_value v =
     (case v of
        JString s \<Rightarrow> Inr (should_cache s)
      | _ \<Rightarrow> (if truthy v
              then Inl (Exception ([CHR 0x27] @ type_name v @ [CHR 0x27]
                          @ '' object has no attribute '' @ [CHR 0x27] @ ''startswith'' @ [CHR 0x27]))
              else Inr False))"

text \<open>
  The state of a run: the cache, the cache file, the tasks submitted and not yet started,
  the tasks started (each with what its worker returns or raises) and not yet taken by
  \<open>as_completed\<close>, the list \<open>results\<close>, the calls made to the environment so far, and
  the exception that has left the loop of \<open>main\<close>, if one has.
\<close>

record state =
  cache :: json
  disk :: "string option"
  pending :: "(nat \<times> film) list"
  running :: "(nat \<times> film \<times> (py_exception + result)) list"
  results :: "result list"
  effects :: "effect list"
  aborted :: "py_exception option"

text \<open>
  What the environment does during one pass of the loop over \<open>as_completed(futures)\<close>:
  the write of the cache file, the \<open>print\<close> of the warning in \<open>save_cache\<close>, the
  \<open>print\<close> of the progress line at the end of the \<open>try\<close> block, and the \<open>print\<close> in
  the handler.
\<close>

record loop_env =
  file_write :: write_outcome
  warning_print :: print_outcome
  progress_print :: print_outcome
  handler_print :: print_outcome

text \<open>The progress line that ends each path of the \<open>try\<close> block.\<close>

definition print_progress :: "loop_env \<Rightarrow> state \<Rightarrow> (py_exception \<times> state) + state" where
  "print_progress env s =
     (case progress_print env of None \<Rightarrow> Inr s | Some m \<Rightarrow> Inl (Exception m, s))"

text \<open>
  The \<open>try\<close> block for one future: the state at its end, or the exception that leaves it
  with the state at that moment. \<open>results.append(result)\<close> comes first, so what raises
  after it leaves the result in the list.
\<close>

definition try_block ::
  "(json \<Rightarrow> string) \<Rightarrow> loop_env \<Rightarrow> py_exception + result \<Rightarrow> state \<Rightarrow> (py_exception \<times> state) + state" where
  "try_block dumps env outcome s =
     (case outcome of
        Inl e \<Rightarrow> Inl (e, s)
      | Inr r \<Rightarrow>
          (let s1 = s\<lparr>results := results s @ [r]\<rparr>
           in if \<not> cached r
              then (case should_cache_value (streaming r) of
                      Inl e \<Rightarrow> Inl (e, s1)
                    | Inr False \<Rightarrow> print_progress env s1
                    | Inr True \<Rightarrow>
                        (case py_setitem (cache s1) (url r)
                                (JObject [(''title'', JString (title r)),
                                          (''streaming'', streaming r)]) of
                           Inl e \<Rightarrow> Inl (e, s1)
                         | Inr c \<Rightarrow>
                             (case save_cache dumps (file_write env) (warning_print env) c (disk s1) of
                                (raised, d, printed) \<Rightarrow>
                                  (let s2 = s1\<lparr>cache := c, disk := d\<rparr>
                                   in case raised of
                                        Some e \<Rightarrow> Inl (e, s2)
                                      | None \<Rightarrow> print_progress env s2))))
              else print_progress env s1))"

text \<open>
  The body of the loop for one future: the \<open>try\<close> block, and the handler of
  \<open>Exception\<close>, which prints and appends an error result for the film of the future. A
  \<open>print\<close> that raises in the handler leaves the loop.
\<close>

definition collect ::
  "(json \<Rightarrow> string) \<Rightarrow> loop_env \<Rightarrow> nat \<times> film \<times> (py_exception + result) \<Rightarrow> state \<Rightarrow> state" where
  "collect dumps env task s =
     (case task of (film_index, film, outcome) \<Rightarrow>
        (case try_block dumps env outcome s of
           Inr s' \<Rightarrow> s'
         | Inl (e, s') \<Rightarrow>
             (case handler_print env of
                Some m \<Rightarrow> s'\<lparr>aborted := Some (Exception m)\<rparr>
              | None \<Rightarrow>
                  s'\<lparr>results := results s' @
                        [\<lparr>index = film_index, title = film_title film, url = film_url film,
                          streaming = JString (''Error: '' @ str e), cached = False\<rparr>]\<rparr>)))"

text \<open>
  The pool runs the tasks in the order of submission; a task reads the cache when it
  starts. The coordinator takes finished tasks in any order, until an exception leaves its
  loop; the pool still runs the tasks that are left. An event is one of the two, with
  what the environment does at it, and a schedule is a list of events. The limit of three
  worker threads only removes schedules: it is not part of the model, and what holds for
  every schedule here holds for those of the pool. A step is \<open>None\<close> when its event
  cannot happen: no task is waiting, no started task has that position, or the loop has
  been left.
\<close>

datatype event = Start driver_outcome | Collect nat loop_env

definition step :: "(json \<Rightarrow> string) \<Rightarrow> event \<Rightarrow> state \<Rightarrow> state option" where
  "step dumps ev s =
     (case ev of
        Start w \<Rightarrow>
          (case pending s of
             [] \<Rightarrow> None
           | (film_index, film) # rest \<Rightarrow>
               (let (outcome, effs) = scrape_film_worker w film_index film (cache s)
                in Some (s\<lparr>pending := rest,
                            running := running s @ [(film_index, film, outcome)],
                            effects := effects s @ effs\<rparr>)))
      | Collect k env \<Rightarrow>
          (if k < length (running s) \<and> aborted s = None
           then Some (collect dumps env (running s ! k)
                        (s\<lparr>running := take k (running s) @ drop (Suc k) (running s)\<rparr>))
           else None))"

fun exec :: "(json \<Rightarrow> string) \<Rightarrow> event list \<Rightarrow> state \<Rightarrow> state option" where
  "exec dumps [] s = Some s"
| "exec dumps (ev # evs) s =
     (case step dumps ev s of None \<Rightarrow> None | Some s' \<Rightarrow> exec dumps evs s')"

text \<open>The state after every film is submitted, with index from 1.\<close>

definition init :: "film list \<Rightarrow> json \<Rightarrow> string option \<Rightarrow> state" where
  "init films c d =
     \<lparr>cache = c, disk = d, pending = enumerate 1 films, running = [], results = [],
      effects = [], aborted = None\<rparr>"

text \<open>The loop has ended and \<open>main\<close> goes on to the report.\<close>

definition finished :: "state \<Rightarrow> bool" where
  "finished s = (pending s = [] \<and> running s = [] \<and> aborted s = None)"


text \<open>An environment in which the file is written and every \<open>print\<close> prints.\<close>

definition no_fault :: loop_env where
  "no_fault = \<lparr>file_write = Written, warning_print = None, progress_print = None, handler_print = None\<rparr>"

subsection \<open>Notions used to state the properties\<close>





definition is_dict :: "json \<Rightarrow> bool" where
  "is_dict v = (case v of JObject kvs \<Rightarrow> True | _ \<Rightarrow> False)"




text \<open>What the \<open>try\<close> block does for a result that was returned: the result is appended,
  and the cache and the file may change; nothing else does.\<close>

definition appended :: "result \<Rightarrow> state \<Rightarrow> state \<Rightarrow> bool" where
  "appended r s s' =
     (results s' = results s @ [r] \<and> pending s' = pending s \<and> running s' = running s
      \<and> effects s' = effects s \<and> aborted s' = aborted s
      \<and> (cache s' = cache s
           \<or> py_setitem (cache s) (url r)
                (JObject [(''title'', JString (title r)), (''streaming'', streaming r)])
              = Inr (cache s')))"

text \<open>The error result the handler appends.\<close>

definition error_result :: "nat \<Rightarrow> film \<Rightarrow> py_exception \<Rightarrow> result" where
  "error_result i f e =
     \<lparr>index = i, title = film_title f, url = film_url f,
      streaming = JString (''Error: '' @ str e), cached = False\<rparr>"


text \<open>An entry without its title, and a cache without the titles of its entries.\<close>

definition strip_title :: "json \<Rightarrow> json" where
  "strip_title e =
     (case e of JObject kvs \<Rightarrow> JObject (filter (\<lambda>(k, v). k \<noteq> ''title'') kvs) | _ \<Rightarrow> e)"

definition forget_titles :: "json \<Rightarrow> json" where
  "forget_titles c =
     (case c of JObject kvs \<Rightarrow> JObject (map (\<lambda>(u, e). (u, strip_title e)) kvs) | _ \<Rightarrow> c)"

text \<open>Two caches that differ at most in the titles they store.\<close>

definition same_streaming :: "json \<Rightarrow> json \<Rightarrow> bool" where
  "same_streaming c1 c2 = (forget_titles c1 = forget_titles c2)"

text \<open>Two states of a run that differ at most in the stored titles and in the file.\<close>

definition same_run :: "state \<Rightarrow> state \<Rightarrow> bool" where
  "same_run s1 s2 =
     (same_streaming (cache s1) (cache s2) \<and> pending s1 = pending s2 \<and> running s1 = running s2
      \<and> results s1 = results s2 \<and> effects s1 = effects s2 \<and> aborted s1 = aborted s2)"

definition same_try :: "(py_exception \<times> state) + state \<Rightarrow> (py_exception \<times> state) + state \<Rightarrow> bool" where
  "same_try a b =
     (case (a, b) of
        (Inr s1, Inr s2) \<Rightarrow> same_run s1 s2
      | (Inl (e1, s1), Inl (e2, s2)) \<Rightarrow> e1 = e2 \<and> same_run s1 s2
      | _ \<Rightarrow> False)"

section \<open>Properties\<close>

text \<open>The definitions a concrete run is evaluated with.\<close>

lemmas run_defs = init_def step_def scrape_film_worker_def cached_streaming_def collect_def
  try_block_def print_progress_def should_cache_value_def save_cache_def should_cache_def
  startswith_def scrape_streaming_info_def finished_def no_fault_def Let_def

subsection \<open>What is cached\<close>

text \<open>
  C1. A fetched result for a page with no \<open>watch\<close> section has the availability
  \<open>No streaming info available\<close>; the test of \<open>main\<close> looks for the prefix
  \<open>Not streaming\<close>, so this result passes the test and is written to the cache and to
  the file.
\<close>

theorem no_info_result_is_cached:
  "should_cache (scrape_streaming_info (PageSource None)) \<and>
   map_option (\<lambda>s. (cache s, disk s, results s))
     (exec dumps [Start (Driver (PageSource None) None), Collect 0 no_fault]
        (init [\<lparr>film_title = ''A'', film_url = ''u''\<rparr>] (JObject []) None)) =
   Some (JObject [(''u'', JObject [(''title'', JString ''A''),
                                   (''streaming'', JString ''No streaming info available'')])],
         Some (dumps (JObject [(''u'', JObject [(''title'', JString ''A''),
                                   (''streaming'', JString ''No streaming info available'')])])),
         [\<lparr>index = 1, title = ''A'', url = ''u'',
           streaming = JString ''No streaming info available'', cached = False\<rparr>])"
  by (simp add: run_defs)

subsection \<open>One pass of the loop\<close>


lemma print_progress_cases:
  "print_progress env s = Inr s \<or> (\<exists>m. print_progress env s = Inl (Exception m, s))"
  by (simp add: print_progress_def split: option.split)

lemma try_block_result:
  "\<exists>s'. appended r s s' \<and>
         (try_block dumps env (Inr r) s = Inr s' \<or> (\<exists>e. try_block dumps env (Inr r) s = Inl (e, s')))"
proof -
  let ?s1 = "s\<lparr>results := results s @ [r]\<rparr>"
  have a1: "appended r s ?s1" by (simp add: appended_def)
  have p1: "print_progress env ?s1 = Inr ?s1 \<or> (\<exists>m. print_progress env ?s1 = Inl (Exception m, ?s1))"
    by (rule print_progress_cases)
  show ?thesis
  proof (cases "cached r")
    case True
    then have "try_block dumps env (Inr r) s = print_progress env ?s1"
      by (simp add: try_block_def)
    with a1 p1 show ?thesis by metis
  next
    case nc: False
    show ?thesis
    proof (cases "should_cache_value (streaming r)")
      case (Inl e)
      with nc have "try_block dumps env (Inr r) s = Inl (e, ?s1)"
        by (simp add: try_block_def)
      with a1 show ?thesis by metis
    next
      case (Inr b)
      show ?thesis
      proof (cases b)
        case False
        with nc Inr have "try_block dumps env (Inr r) s = print_progress env ?s1"
          by (simp add: try_block_def)
        with a1 p1 show ?thesis by metis
      next
        case True
        let ?entry = "JObject [(''title'', JString (title r)), (''streaming'', streaming r)]"
        show ?thesis
        proof (cases "py_setitem (cache s) (url r) ?entry")
          case (Inl e)
          with nc Inr True have "try_block dumps env (Inr r) s = Inl (e, ?s1)"
            by (simp add: try_block_def)
          with a1 show ?thesis by metis
        next
          case c: (Inr c)
          obtain raised d printed where
            sv: "save_cache dumps (file_write env) (warning_print env) c (disk s) = (raised, d, printed)"
            by (cases "save_cache dumps (file_write env) (warning_print env) c (disk s)")
          let ?s2 = "?s1\<lparr>cache := c, disk := d\<rparr>"
          have a2: "appended r s ?s2" using c by (simp add: appended_def)
          have p2: "print_progress env ?s2 = Inr ?s2 \<or> (\<exists>m. print_progress env ?s2 = Inl (Exception m, ?s2))"
            by (rule print_progress_cases)
          have "try_block dumps env (Inr r) s =
                  (case raised of Some e \<Rightarrow> Inl (e, ?s2) | None \<Rightarrow> print_progress env ?s2)"
            using nc Inr True c sv by (simp add: try_block_def Let_def)
          then have "try_block dumps env (Inr r) s = print_progress env ?s2
                     \<or> (\<exists>e. try_block dumps env (Inr r) s = Inl (e, ?s2))"
            by (cases raised) simp_all
          with a2 p2 show ?thesis by metis
        qed
      qed
    qed
  qed
qed




lemma handler_cases:
  assumes "try_block dumps env outcome s = Inl (e, s')"
  shows "(\<exists>m. handler_print env = Some m \<and> collect dumps env (i, f, outcome) s = s'\<lparr>aborted := Some (Exception m)\<rparr>)
       \<or> (handler_print env = None \<and>
            collect dumps env (i, f, outcome) s = s'\<lparr>results := results s' @ [error_result i f e]\<rparr>)"
  using assms by (cases "handler_print env") (simp_all add: collect_def error_result_def)

lemma collect_raised:
  "(\<exists>m. handler_print env = Some m \<and> collect dumps env (i, f, Inl e) s = s\<lparr>aborted := Some (Exception m)\<rparr>)
   \<or> (handler_print env = None \<and>
        collect dumps env (i, f, Inl e) s = s\<lparr>results := results s @ [error_result i f e]\<rparr>)"
  by (rule handler_cases) (simp add: try_block_def)

lemma collect_fields:
  "pending (collect dumps env t s) = pending s"
  "running (collect dumps env t s) = running s"
  "effects (collect dumps env t s) = effects s"
proof -
  obtain i f outcome where t: "t = (i, f, outcome)" by (cases t)
  have "pending (collect dumps env t s) = pending s \<and> running (collect dumps env t s) = running s
        \<and> effects (collect dumps env t s) = effects s"
  proof (cases outcome)
    case (Inl e)
    with collect_raised [of env dumps i f e s] t show ?thesis by auto
  next
    case (Inr r)
    from try_block_result [of r s dumps env] obtain s' where
      a: "appended r s s'" and
      tb: "try_block dumps env (Inr r) s = Inr s' \<or> (\<exists>e. try_block dumps env (Inr r) s = Inl (e, s'))"
      by blast
    from tb show ?thesis
    proof
      assume "try_block dumps env (Inr r) s = Inr s'"
      with a t Inr show ?thesis by (simp add: collect_def appended_def)
    next
      assume "\<exists>e. try_block dumps env (Inr r) s = Inl (e, s')"
      then obtain e where "try_block dumps env (Inr r) s = Inl (e, s')" ..
      from handler_cases [OF this, of i f] a t Inr show ?thesis
        by (auto simp: appended_def)
    qed
  qed
  then show "pending (collect dumps env t s) = pending s"
    "running (collect dumps env t s) = running s"
    "effects (collect dumps env t s) = effects s" by simp_all
qed




subsection \<open>Cache hits\<close>

text \<open>
  C2, as stated, fails: the worker reads \<open>cache[url]['streaming']\<close>, and for a URL that
  is in the cache with an entry that has no \<open>streaming\<close> value this raises; no fetch is
  made, and \<open>main\<close> records an error result with \<open>cached = False\<close>.
\<close>

theorem cache_hit_without_streaming:
  "map_option (\<lambda>s. (results s, effects s, finished s))
     (exec (\<lambda>c. ''text'') [Start NoDriver, Collect 0 no_fault]
        (init [\<lparr>film_title = ''A'', film_url = ''u''\<rparr>]
           (JObject [(''u'', JObject [(''title'', JString ''A'')])]) None)) =
   Some ([\<lparr>index = 1, title = ''A'', url = ''u'',
           streaming = JString (''Error: '' @ [CHR 0x27] @ ''streaming'' @ [CHR 0x27]),
           cached = False\<rparr>], [], True)"
  by (simp add: run_defs)

text \<open>
  C2, amended. When the URL of a film is in the cache as its task starts, the worker
  makes no call to the environment (no driver is set up, no page is fetched), and the
  state after the start has the same calls to the environment as before. When the entry
  is a dictionary with a \<open>streaming\<close> value, the worker returns a result with that
  value and \<open>cached = True\<close>, and the coordinator appends it and leaves the cache and
  the file as they are; otherwise the lookup raises in the worker, and the handler of
  \<open>main\<close> appends an error result with \<open>cached = False\<close>.
\<close>

theorem cache_hit_skips_fetch:
  fixes s :: state and f :: film and i :: nat and v :: json
  defines "r \<equiv> \<lparr>index = i, title = film_title f, url = film_url f, streaming = v, cached = True\<rparr>"
  assumes "py_in (film_url f) (cache s) = Inr True" and "pending s = (i, f) # rest"
  shows "snd (scrape_film_worker w i f (cache s)) = [] \<and>
         map_option effects (step dumps (Start w) s) = Some (effects s) \<and>
         (cached_streaming (cache s) (film_url f) = Inr v \<longrightarrow>
            fst (scrape_film_worker w i f (cache s)) = Inr r \<and>
            step dumps (Start w) s = Some (s\<lparr>pending := rest, running := running s @ [(i, f, Inr r)]\<rparr>) \<and>
            (progress_print env = None \<longrightarrow>
               collect dumps env (i, f, Inr r) s' = s'\<lparr>results := results s' @ [r]\<rparr>)) \<and>
         (cached_streaming (cache s) (film_url f) = Inl e \<longrightarrow>
            fst (scrape_film_worker w i f (cache s)) = Inl e \<and>
            (handler_print env = None \<longrightarrow>
               collect dumps env (i, f, Inl e) s' =
                 s'\<lparr>results := results s' @
                       [\<lparr>index = i, title = film_title f, url = film_url f,
                         streaming = JString (''Error: '' @ str e), cached = False\<rparr>]\<rparr>))"
  using assms
  by (cases "cached_streaming (cache s) (film_url f)")
     (simp_all add: scrape_film_worker_def step_def collect_def try_block_def print_progress_def r_def)

theorem cache_hit_skips_fetch_witness:
  "py_in ''u'' (cache (init [\<lparr>film_title = ''Dune'', film_url = ''u''\<rparr>]
       (JObject [(''u'', JObject [(''title'', JString ''Dune (1984)''),
                                  (''streaming'', JString ''Netflix'')])]) None)) = Inr True \<and>
   pending (init [\<lparr>film_title = ''Dune'', film_url = ''u''\<rparr>]
       (JObject [(''u'', JObject [(''title'', JString ''Dune (1984)''),
                                  (''streaming'', JString ''Netflix'')])]) None)
     = [(1, \<lparr>film_title = ''Dune'', film_url = ''u''\<rparr>)] \<and>
   cached_streaming (JObject [(''u'', JObject [(''title'', JString ''Dune (1984)''),
                                  (''streaming'', JString ''Netflix'')])]) ''u''
     = Inr (JString ''Netflix'') \<and>
   progress_print no_fault = None \<and>
   scrape_film_worker NoDriver 1 \<lparr>film_title = ''Dune'', film_url = ''u''\<rparr>
       (JObject [(''u'', JObject [(''title'', JString ''Dune (1984)''),
                                  (''streaming'', JString ''Netflix'')])])
     = (Inr \<lparr>index = 1, title = ''Dune'', url = ''u'', streaming = JString ''Netflix'',
             cached = True\<rparr>, []) \<and>
   py_in ''u'' (cache (init [\<lparr>film_title = ''Dune'', film_url = ''u''\<rparr>]
       (JObject [(''u'', JNumber 7)]) None)) = Inr True \<and>
   cached_streaming (JObject [(''u'', JNumber 7)]) ''u''
     = Inl (Exception ([CHR 0x27] @ ''int'' @ [CHR 0x27] @ '' object is not subscriptable'')) \<and>
   handler_print no_fault = None \<and>
   scrape_film_worker NoDriver 1 \<lparr>film_title = ''Dune'', film_url = ''u''\<rparr>
       (JObject [(''u'', JNumber 7)])
     = (Inl (Exception ([CHR 0x27] @ ''int'' @ [CHR 0x27] @ '' object is not subscriptable'')), [])"
proof -
  let ?f = "\<lparr>film_title = ''Dune'', film_url = ''u''\<rparr>"
  let ?c1 = "JObject [(''u'', JObject [(''title'', JString ''Dune (1984)''),
                                  (''streaming'', JString ''Netflix'')])]"
  let ?c2 = "JObject [(''u'', JNumber 7)]"
  have a1: "py_in (film_url ?f) (cache (init [?f] ?c1 None)) = Inr True" by (simp add: init_def)
  have a2: "py_in (film_url ?f) (cache (init [?f] ?c2 None)) = Inr True" by (simp add: init_def)
  have p1: "pending (init [?f] ?c1 None) = (1, ?f) # []" by (simp add: init_def)
  have p2: "pending (init [?f] ?c2 None) = (1, ?f) # []" by (simp add: init_def)
  have c1: "cached_streaming ?c1 ''u'' = Inr (JString ''Netflix'')"
    by (simp add: cached_streaming_def)
  have c2: "cached_streaming ?c2 ''u''
      = Inl (Exception ([CHR 0x27] @ ''int'' @ [CHR 0x27] @ '' object is not subscriptable''))"
    by (simp add: cached_streaming_def)
  from cache_hit_skips_fetch [OF a1 p1, of NoDriver "\<lambda>c. ''text''" "JString ''Netflix''" no_fault]
    cache_hit_skips_fetch [OF a2 p2, of NoDriver "\<lambda>c. ''text''" _ no_fault _
      "Exception ([CHR 0x27] @ ''int'' @ [CHR 0x27] @ '' object is not subscriptable'')"]
    a1 a2 p1 p2 c1 c2
  show ?thesis
    by (simp add: init_def no_fault_def prod_eq_iff)
qed

subsection \<open>Every task is accounted for\<close>



lemma step_start:
  assumes "step dumps (Start w) s = Some s'"
  obtains i f rest where "pending s = (i, f) # rest"
    and "s' = s\<lparr>pending := rest,
                 running := running s @ [(i, f, fst (scrape_film_worker w i f (cache s)))],
                 effects := effects s @ snd (scrape_film_worker w i f (cache s))\<rparr>"
  using assms by (auto simp: step_def Let_def split: list.splits prod.splits)

lemma step_collect:
  assumes "step dumps (Collect k env) s = Some s'"
  shows "k < length (running s) \<and> aborted s = None \<and>
         s' = collect dumps env (running s ! k)
                (s\<lparr>running := take k (running s) @ drop (Suc k) (running s)\<rparr>)"
  using assms by (auto simp: step_def split: if_splits)













subsection \<open>The order of the report\<close>







subsection \<open>Fetches and duplicate URLs\<close>

text \<open>
  C3, as stated, fails: every film gets a task of its own, and a task fetches when its URL
  is not in the cache as it starts. Two films with the same URL, both started before
  either is collected, are fetched twice, and the second result overwrites the first in
  the cache.
\<close>

theorem duplicate_urls_fetched_twice:
  "map_option (\<lambda>s. (count_list (effects s) (Get ''u''), map streaming (results s), cache s))
     (exec (\<lambda>c. ''text'')
        [Start (Driver (PageSource (Some (WatchDiv (Some [[''service'', ''-netflix'']]) ''''))) None),
         Start (Driver (PageSource (Some (WatchDiv (Some [[''service'', ''-netflix'']]) ''''))) None),
         Collect 0 no_fault, Collect 0 no_fault]
        (init [\<lparr>film_title = ''A'', film_url = ''u''\<rparr>, \<lparr>film_title = ''B'', film_url = ''u''\<rparr>]
           (JObject []) None))
   = Some (2, [JString ''Netflix'', JString ''Netflix''],
           JObject [(''u'', JObject [(''title'', JString ''B''), (''streaming'', JString ''Netflix'')])])"
  by code_simp

lemma worker_effects:
  "snd (scrape_film_worker w i f c) = [] \<or> snd (scrape_film_worker w i f c) = [SetupDriver]
   \<or> snd (scrape_film_worker w i f c) = [SetupDriver, Get (film_url f), Quit]"
  by (simp add: scrape_film_worker_def Let_def
      split: option.splits driver_outcome.splits sum.splits bool.splits)

lemma step_fetches:
  assumes "step dumps ev s = Some s'"
  shows "count_list (effects s') (Get u) + count_list (map (film_url \<circ> snd) (pending s')) u
         \<le> count_list (effects s) (Get u) + count_list (map (film_url \<circ> snd) (pending s)) u"
proof (cases ev)
  case (Start w)
  with assms obtain i f rest where p: "pending s = (i, f) # rest"
    and s': "s' = s\<lparr>pending := rest,
                    running := running s @ [(i, f, fst (scrape_film_worker w i f (cache s)))],
                    effects := effects s @ snd (scrape_film_worker w i f (cache s))\<rparr>"
    by (auto elim: step_start)
  show ?thesis
    using worker_effects [of w i f "cache s"] by (auto simp: s' p)
next
  case (Collect k env)
  with assms step_collect [of dumps k env s s'] show ?thesis
    by (simp add: collect_fields)
qed

lemma exec_fetches:
  assumes "exec dumps evs s = Some s'"
  shows "count_list (effects s') (Get u) + count_list (map (film_url \<circ> snd) (pending s')) u
         \<le> count_list (effects s) (Get u) + count_list (map (film_url \<circ> snd) (pending s)) u"
  using assms
proof (induction evs arbitrary: s)
  case Nil
  then show ?case by simp
next
  case (Cons ev evs)
  from Cons.prems obtain s1 where s1: "step dumps ev s = Some s1" "exec dumps evs s1 = Some s'"
    by (auto split: option.splits)
  from step_fetches [OF s1(1), of u] Cons.IH [OF s1(2)]
  show ?case by linarith
qed

lemma count_list_distinct: "distinct xs \<Longrightarrow> count_list xs x \<le> 1"
  by (induction xs) auto

text \<open>
  C3, amended. At every point of every run, the number of fetches of a URL is at most the
  number of films of the batch with that URL; when the URLs of the batch are distinct,
  a URL is fetched at most once.
\<close>

theorem fetches_bounded_by_items:
  assumes "exec dumps evs (init films c d) = Some s"
  shows "count_list (effects s) (Get u) \<le> count_list (map film_url films) u \<and>
         (distinct (map film_url films) \<longrightarrow> count_list (effects s) (Get u) \<le> 1)"
proof -
  have "map (film_url \<circ> snd) (enumerate 1 films) = map film_url films"
    by (simp flip: map_map)
  with exec_fetches [OF assms, of u]
  have b: "count_list (effects s) (Get u) \<le> count_list (map film_url films) u"
    by (simp add: init_def)
  with count_list_distinct [of "map film_url films" u] show ?thesis by auto
qed

theorem fetches_bounded_by_items_witness:
  "(case exec (\<lambda>c. ''text'')
        [Start (Driver (PageSource None) None), Start (Driver (PageSource None) None),
         Collect 0 no_fault, Collect 0 no_fault]
        (init [\<lparr>film_title = ''A'', film_url = ''u1''\<rparr>, \<lparr>film_title = ''B'', film_url = ''u2''\<rparr>]
           (JObject []) None)
    of None \<Rightarrow> False
     | Some s \<Rightarrow> distinct (map film_url [\<lparr>film_title = ''A'', film_url = ''u1''\<rparr>,
                                          \<lparr>film_title = ''B'', film_url = ''u2''\<rparr>]) \<and>
                 count_list (effects s) (Get ''u1'') \<le> 1)"
proof -
  obtain s where e: "exec (\<lambda>c. ''text'')
        [Start (Driver (PageSource None) None), Start (Driver (PageSource None) None),
         Collect 0 no_fault, Collect 0 no_fault]
        (init [\<lparr>film_title = ''A'', film_url = ''u1''\<rparr>, \<lparr>film_title = ''B'', film_url = ''u2''\<rparr>]
           (JObject []) None)
      = Some s"
    by (simp add: run_defs)
  have d: "distinct (map film_url [\<lparr>film_title = ''A'', film_url = ''u1''\<rparr>,
                                   \<lparr>film_title = ''B'', film_url = ''u2''\<rparr>])" by simp
  from fetches_bounded_by_items [OF e, of "''u1''"] d
  have "count_list (effects s) (Get ''u1'') \<le> 1" by blast
  with e d show ?thesis by simp
qed

subsection \<open>Failures of the worker\<close>

text \<open>
  C6, as stated, fails: \<open>driver.quit()\<close> runs in a \<open>finally\<close> block outside any
  handler, so an exception it raises leaves the worker.
\<close>

theorem worker_raises_when_quit_raises:
  "fst (scrape_film_worker (Driver (PageSource None) (Some ''invalid session id'')) 1
          \<lparr>film_title = ''Dune'', film_url = ''https://letterboxd.com/film/dune/''\<rparr> (JObject []))
   = Inl (Exception ''invalid session id'')"
  by (simp add: scrape_film_worker_def)

text \<open>
  C6, amended. An exception inside \<open>scrape_streaming_info\<close> is returned as
  \<open>Error: \<close> followed by its message. The worker raises when the test of the URL
  against the cache raises, when the URL is in the cache and the lookup of the entry's
  \<open>streaming\<close> value raises, when \<open>setup_driver\<close> raises, and when \<open>driver.quit()\<close>
  raises; in every other case it returns a result, with \<open>Error: Could not create driver\<close>
  when no driver can be created. An exception that leaves the worker reaches the handler
  of \<open>main\<close>, which records for the film the result \<open>Error: \<close> followed by the message.
\<close>

theorem worker_failures_as_results:
  "scrape_streaming_info (GetRaises m) = ''Error: '' @ m \<and>
   (py_in (film_url f) c = Inl e \<longrightarrow> fst (scrape_film_worker w i f c) = Inl e) \<and>
   (py_in (film_url f) c = Inr True \<longrightarrow>
      fst (scrape_film_worker w i f c) =
        (case cached_streaming c (film_url f) of
           Inl e \<Rightarrow> Inl e
         | Inr v \<Rightarrow> Inr \<lparr>index = i, title = film_title f, url = film_url f,
                         streaming = v, cached = True\<rparr>)) \<and>
   (py_in (film_url f) c = Inr False \<longrightarrow>
      fst (scrape_film_worker NoDriver i f c) =
        Inr \<lparr>index = i, title = film_title f, url = film_url f,
             streaming = JString ''Error: Could not create driver'', cached = False\<rparr> \<and>
      fst (scrape_film_worker (Driver g None) i f c) =
        Inr \<lparr>index = i, title = film_title f, url = film_url f,
             streaming = JString (scrape_streaming_info g), cached = False\<rparr> \<and>
      fst (scrape_film_worker (Driver g (Some m)) i f c) = Inl (Exception m) \<and>
      fst (scrape_film_worker (SetupRaises m) i f c) = Inl (Exception m)) \<and>
   (handler_print env = None \<longrightarrow>
      results (collect dumps env (i, f, Inl e) s) =
        results s @ [\<lparr>index = i, title = film_title f, url = film_url f,
                      streaming = JString (''Error: '' @ str e), cached = False\<rparr>])"
  by (cases "cached_streaming c (film_url f)")
     (simp_all add: scrape_streaming_info_def scrape_film_worker_def collect_def try_block_def)

theorem worker_failures_as_results_witness:
  "py_in ''u'' JNull = Inl (Exception (''argument of type '' @ [CHR 0x27] @ ''NoneType'' @ [CHR 0x27]
                                        @ '' is not iterable'')) \<and>
   fst (scrape_film_worker NoDriver 1 \<lparr>film_title = ''Dune'', film_url = ''u''\<rparr> JNull) =
     Inl (Exception (''argument of type '' @ [CHR 0x27] @ ''NoneType'' @ [CHR 0x27]
                       @ '' is not iterable'')) \<and>
   py_in ''u'' (JObject [(''u'', JObject [])]) = Inr True \<and>
   fst (scrape_film_worker NoDriver 1 \<lparr>film_title = ''Dune'', film_url = ''u''\<rparr>
          (JObject [(''u'', JObject [])])) =
     Inl (Exception ([CHR 0x27] @ ''streaming'' @ [CHR 0x27])) \<and>
   py_in ''u'' (JObject []) = Inr False \<and>
   fst (scrape_film_worker NoDriver 1 \<lparr>film_title = ''Dune'', film_url = ''u''\<rparr> (JObject [])) =
     Inr \<lparr>index = 1, title = ''Dune'', url = ''u'',
          streaming = JString ''Error: Could not create driver'', cached = False\<rparr> \<and>
   fst (scrape_film_worker (Driver (GetRaises ''timeout'') None) 1
          \<lparr>film_title = ''Dune'', film_url = ''u''\<rparr> (JObject [])) =
     Inr \<lparr>index = 1, title = ''Dune'', url = ''u'', streaming = JString ''Error: timeout'',
          cached = False\<rparr> \<and>
   fst (scrape_film_worker (Driver (GetRaises ''timeout'') (Some ''invalid session id'')) 1
          \<lparr>film_title = ''Dune'', film_url = ''u''\<rparr> (JObject [])) =
     Inl (Exception ''invalid session id'') \<and>
   handler_print no_fault = None \<and>
   results (collect (\<lambda>c. ''text'') no_fault
              (1, \<lparr>film_title = ''Dune'', film_url = ''u''\<rparr>, Inl (Exception ''invalid session id''))
              (init [] (JObject []) None)) =
     [\<lparr>index = 1, title = ''Dune'', url = ''u'', streaming = JString ''Error: invalid session id'',
       cached = False\<rparr>]"
proof -
  let ?f = "\<lparr>film_title = ''Dune'', film_url = ''u''\<rparr>"
  have h: "handler_print no_fault = None" by (simp add: no_fault_def)
  from worker_failures_as_results [of "''timeout''" ?f JNull _ NoDriver 1]
    worker_failures_as_results [of "''timeout''" ?f "JObject [(''u'', JObject [])]" _ NoDriver 1]
    worker_failures_as_results [of "''timeout''" ?f "JObject []" _ NoDriver 1 "GetRaises ''timeout''"]
    worker_failures_as_results [of "''invalid session id''" ?f "JObject []"
      "Exception ''invalid session id''" NoDriver 1 "GetRaises ''timeout''" no_fault
      "\<lambda>c. ''text''" "init [] (JObject []) None"] h
  show ?thesis
    by (simp add: cached_streaming_def init_def)
qed

subsection \<open>Loading the cache\<close>

text \<open>
  C7, as stated, fails: on a text that is not JSON \<open>load_cache\<close> returns the empty
  dictionary and prints nothing.
\<close>

theorem load_cache_malformed_prints_nothing:
  "load_cache (\<lambda>text. Inl (JSONDecodeError ''Expecting value'')) (Some ''garbage'')
   = (Inr (JObject []), [])"
  by (simp add: load_cache_def)

text \<open>
  C7, amended. \<open>load_cache\<close> returns the empty dictionary when the file is missing, and
  when reading it raises a \<open>JSONDecodeError\<close> or an \<open>IOError\<close>; it never prints.
\<close>

theorem load_cache_degrades_silently:
  "load_cache read None = (Inr (JObject []), []) \<and>
   (read text = Inl (JSONDecodeError m) \<or> read text = Inl (IOError m) \<longrightarrow>
      load_cache read (Some text) = (Inr (JObject []), [])) \<and>
   snd (load_cache read d) = []"
  by (auto simp: load_cache_def split: option.splits sum.splits py_exception.splits)

theorem load_cache_degrades_silently_witness:
  "(\<lambda>text. Inl (JSONDecodeError ''Expecting value'') :: py_exception + json) ''garbage''
     = Inl (JSONDecodeError ''Expecting value'') \<and>
   load_cache (\<lambda>text. Inl (JSONDecodeError ''Expecting value'')) (Some ''garbage'')
     = (Inr (JObject []), [])"
  using load_cache_degrades_silently
    [of "\<lambda>text. Inl (JSONDecodeError ''Expecting value'')" "''garbage''" "''Expecting value''"]
  by simp

subsection \<open>The stored title\<close>

text \<open>Runs from caches that differ only in stored titles go the same way.\<close>

lemma map_of_filter_other:
  "k \<noteq> t \<Longrightarrow> map_of (filter (\<lambda>(k', v). k' \<noteq> t) kvs) k = map_of kvs k"
  by (induction kvs) auto

lemma getitem_strip_title:
  "k \<noteq> ''title'' \<Longrightarrow> py_getitem (strip_title e) k = py_getitem e k"
  by (cases e) (simp_all add: strip_title_def map_of_filter_other)

lemma same_streaming_cases:
  assumes "same_streaming c1 c2"
  shows "c1 = c2 \<or> (\<exists>a b. c1 = JObject a \<and> c2 = JObject b \<and>
           map (\<lambda>(u, e). (u, strip_title e)) a = map (\<lambda>(u, e). (u, strip_title e)) b)"
  using assms
  by (cases c1; cases c2) (simp_all add: same_streaming_def forget_titles_def)

lemma same_streaming_lookup:
  assumes "map (\<lambda>(u, e). (u, strip_title e)) a = map (\<lambda>(u, e). (u, strip_title e)) b"
  shows "map_option strip_title (map_of a u) = map_option strip_title (map_of b u)"
proof -
  have "map_of (map (\<lambda>(u, e). (u, strip_title e)) a) u
      = map_of (map (\<lambda>(u, e). (u, strip_title e)) b) u"
    using assms by simp
  then show ?thesis by (simp add: map_of_map)
qed

lemma same_streaming_in:
  assumes "same_streaming c1 c2"
  shows "py_in u c1 = py_in u c2"
  using same_streaming_cases [OF assms]
proof (elim disjE exE conjE)
  fix a b assume c: "c1 = JObject a" "c2 = JObject b"
    and m: "map (\<lambda>(u, e). (u, strip_title e)) a = map (\<lambda>(u, e). (u, strip_title e)) b"
  from same_streaming_lookup [OF m, of u] show ?thesis
    by (cases "map_of a u"; cases "map_of b u") (simp_all add: c)
qed simp

lemma same_cached_streaming:
  assumes "same_streaming c1 c2"
  shows "cached_streaming c1 u = cached_streaming c2 u"
  using same_streaming_cases [OF assms]
proof (elim disjE exE conjE)
  fix a b assume c: "c1 = JObject a" "c2 = JObject b"
    and m: "map (\<lambda>(u, e). (u, strip_title e)) a = map (\<lambda>(u, e). (u, strip_title e)) b"
  show ?thesis
  proof (cases "map_of a u")
    case None
    with same_streaming_lookup [OF m, of u] have "map_of b u = None" by simp
    with None show ?thesis by (simp add: cached_streaming_def c)
  next
    case (Some e1)
    with same_streaming_lookup [OF m, of u] obtain e2 where
      e2: "map_of b u = Some e2" "strip_title e1 = strip_title e2"
      by (cases "map_of b u") auto
    have "py_getitem e1 ''streaming'' = py_getitem (strip_title e1) ''streaming''"
      by (simp add: getitem_strip_title)
    also have "\<dots> = py_getitem e2 ''streaming''"
      by (simp add: e2(2) getitem_strip_title)
    finally show ?thesis using Some e2(1) by (simp add: cached_streaming_def c)
  qed
qed simp

lemma worker_same:
  assumes "same_streaming c1 c2"
  shows "scrape_film_worker w i f c1 = scrape_film_worker w i f c2"
  unfolding scrape_film_worker_def same_streaming_in [OF assms] same_cached_streaming [OF assms]
  by (rule refl)

lemma update_projection:
  "map (\<lambda>(u, e). (u, g e)) (AList.update k v xs) = AList.update k (g v) (map (\<lambda>(u, e). (u, g e)) xs)"
  by (induction xs) auto

lemma same_streaming_setitem:
  assumes "same_streaming c1 c2"
  shows "(\<exists>e. py_setitem c1 k x = Inl e \<and> py_setitem c2 k x = Inl e)
       \<or> (\<exists>d1 d2. py_setitem c1 k x = Inr d1 \<and> py_setitem c2 k x = Inr d2 \<and> same_streaming d1 d2)"
  using same_streaming_cases [OF assms]
proof (elim disjE exE conjE)
  assume "c1 = c2"
  then show ?thesis
    by (cases "py_setitem c2 k x") (simp_all add: same_streaming_def)
next
  fix a b assume c: "c1 = JObject a" "c2 = JObject b"
    and m: "map (\<lambda>(u, e). (u, strip_title e)) a = map (\<lambda>(u, e). (u, strip_title e)) b"
  then show ?thesis
    by (simp add: same_streaming_def forget_titles_def update_projection)
qed

lemma save_cache_raised:
  "fst (save_cache dumps wo pw c1 d1) = fst (save_cache dumps wo pw c2 d2)"
  by (cases wo; cases pw) (simp_all add: save_cache_def)

lemma print_progress_same:
  "same_run s1 s2 \<Longrightarrow> same_try (print_progress env s1) (print_progress env s2)"
  by (cases "progress_print env") (simp_all add: print_progress_def same_try_def)

lemma try_block_same:
  assumes "same_run s1 s2"
  shows "same_try (try_block dumps env outcome s1) (try_block dumps env outcome s2)"
proof (cases outcome)
  case (Inl e)
  with assms show ?thesis by (simp add: try_block_def same_try_def)
next
  case (Inr r)
  let ?a = "s1\<lparr>results := results s1 @ [r]\<rparr>" and ?b = "s2\<lparr>results := results s2 @ [r]\<rparr>"
  from assms have ab: "same_run ?a ?b" by (simp add: same_run_def)
  show ?thesis
  proof (cases "cached r")
    case True
    with Inr print_progress_same [OF ab] show ?thesis by (simp add: try_block_def)
  next
    case nc: False
    show ?thesis
    proof (cases "should_cache_value (streaming r)")
      case (Inl e)
      with nc Inr ab show ?thesis by (simp add: try_block_def same_try_def)
    next
      case b: (Inr b)
      show ?thesis
      proof (cases b)
        case False
        with nc Inr b print_progress_same [OF ab] show ?thesis by (simp add: try_block_def)
      next
        case True
        let ?entry = "JObject [(''title'', JString (title r)), (''streaming'', streaming r)]"
        from assms have "same_streaming (cache s1) (cache s2)" by (simp add: same_run_def)
        from same_streaming_setitem [OF this, of "url r" ?entry] show ?thesis
        proof (elim disjE exE conjE)
          fix e assume "py_setitem (cache s1) (url r) ?entry = Inl e"
            "py_setitem (cache s2) (url r) ?entry = Inl e"
          with nc Inr b True ab show ?thesis by (simp add: try_block_def same_try_def)
        next
          fix d1 d2 assume d: "py_setitem (cache s1) (url r) ?entry = Inr d1"
            "py_setitem (cache s2) (url r) ?entry = Inr d2" "same_streaming d1 d2"
          obtain ra da pa where sa:
            "save_cache dumps (file_write env) (warning_print env) d1 (disk s1) = (ra, da, pa)"
            by (cases "save_cache dumps (file_write env) (warning_print env) d1 (disk s1)")
          obtain rb db pb where sb:
            "save_cache dumps (file_write env) (warning_print env) d2 (disk s2) = (rb, db, pb)"
            by (cases "save_cache dumps (file_write env) (warning_print env) d2 (disk s2)")
          from save_cache_raised [of dumps "file_write env" "warning_print env" d1 "disk s1" d2 "disk s2"]
          have rr: "ra = rb" by (simp add: sa sb)
          let ?a2 = "?a\<lparr>cache := d1, disk := da\<rparr>" and ?b2 = "?b\<lparr>cache := d2, disk := db\<rparr>"
          from assms d(3) have ab2: "same_run ?a2 ?b2" by (simp add: same_run_def)
          have ta: "try_block dumps env outcome s1 =
                      (case ra of Some e \<Rightarrow> Inl (e, ?a2) | None \<Rightarrow> print_progress env ?a2)"
            using nc Inr b True d(1) sa by (simp add: try_block_def Let_def)
          have tb: "try_block dumps env outcome s2 =
                      (case rb of Some e \<Rightarrow> Inl (e, ?b2) | None \<Rightarrow> print_progress env ?b2)"
            using nc Inr b True d(2) sb by (simp add: try_block_def Let_def)
          show ?thesis
            unfolding ta tb rr using ab2 print_progress_same [OF ab2, of env]
            by (cases rb) (simp_all add: same_try_def)
        qed
      qed
    qed
  qed
qed

lemma collect_same:
  assumes "same_run s1 s2"
  shows "same_run (collect dumps env t s1) (collect dumps env t s2)"
proof -
  obtain i f outcome where t: "t = (i, f, outcome)" by (cases t)
  from try_block_same [OF assms, of dumps env outcome] show ?thesis
    by (cases "try_block dumps env outcome s1"; cases "try_block dumps env outcome s2";
        cases "handler_print env")
       (auto simp: same_try_def collect_def t same_run_def)
qed

lemma step_same:
  assumes "same_run s1 s2"
  shows "rel_option same_run (step dumps ev s1) (step dumps ev s2)"
proof (cases ev)
  case (Start w)
  show ?thesis
  proof (cases "pending s1")
    case Nil
    with assms Start show ?thesis by (simp add: step_def same_run_def)
  next
    case (Cons t rest)
    obtain i f where t: "t = (i, f)" by (cases t)
    have w: "scrape_film_worker w i f (cache s1) = scrape_film_worker w i f (cache s2)"
      using assms by (simp add: same_run_def worker_same)
    from assms have p2: "pending s2 = (i, f) # rest" using Cons t by (simp add: same_run_def)
    show ?thesis
      using assms by (simp add: Start step_def Cons t p2 w Let_def same_run_def split: prod.splits)
  qed
next
  case (Collect k env)
  have r: "running s1 = running s2" "aborted s1 = aborted s2" using assms by (simp_all add: same_run_def)
  have "same_run (s1\<lparr>running := take k (running s2) @ drop (Suc k) (running s2)\<rparr>)
                 (s2\<lparr>running := take k (running s2) @ drop (Suc k) (running s2)\<rparr>)"
    using assms by (simp add: same_run_def)
  then show ?thesis
    by (simp add: Collect step_def r collect_same)
qed

lemma exec_same:
  assumes "same_run s1 s2"
  shows "rel_option same_run (exec dumps evs s1) (exec dumps evs s2)"
  using assms
proof (induction evs arbitrary: s1 s2)
  case Nil
  then show ?case by simp
next
  case (Cons ev evs)
  from step_same [OF Cons.prems, of dumps ev] show ?case
    by (cases "step dumps ev s1"; cases "step dumps ev s2") (simp_all add: Cons.IH)
qed

text \<open>The title is written: a fetched result that passes the test is stored with it.\<close>

lemma collect_stores_title:
  assumes "\<not> cached r" and "streaming r = JString sv" and "should_cache sv"
    and "cache s = JObject kvs"
  shows "py_getitem (cache (collect dumps env (i, f, Inr r) s)) (url r)
         = Inr (JObject [(''title'', JString (title r)), (''streaming'', JString sv)])"
proof -
  let ?entry = "JObject [(''title'', JString (title r)), (''streaming'', JString sv)]"
  let ?c = "JObject (AList.update (url r) ?entry kvs)"
  obtain ra da pa where sa:
    "save_cache dumps (file_write env) (warning_print env) ?c (disk s) = (ra, da, pa)"
    by (cases "save_cache dumps (file_write env) (warning_print env) ?c (disk s)")
  let ?s2 = "s\<lparr>results := results s @ [r], cache := ?c, disk := da\<rparr>"
  have tb: "try_block dumps env (Inr r) s =
              (case ra of Some e \<Rightarrow> Inl (e, ?s2) | None \<Rightarrow> print_progress env ?s2)"
    using assms sa by (simp add: try_block_def should_cache_value_def Let_def)
  have "cache (collect dumps env (i, f, Inr r) s) = ?c"
    by (cases ra; cases "progress_print env"; cases "handler_print env")
       (simp_all add: collect_def tb print_progress_def)
  then show ?thesis by (simp add: update_conv')
qed

text \<open>
  C10. The title stored in a cache entry is written and never read: a fetched result
  that is cached is stored with its title; two caches that differ only in stored titles
  give the same worker outcome and the same results under every schedule; and the title
  of a result served from the cache is the title of the film as discovered in this run.
\<close>

theorem stored_title_never_read:
  assumes "same_streaming c1 c2"
  shows "scrape_film_worker w i f c1 = scrape_film_worker w i f c2 \<and>
         map_option results (exec dumps evs (init films c1 d))
           = map_option results (exec dumps evs (init films c2 d)) \<and>
         (py_in (film_url f) c1 = Inr True \<and> cached_streaming c1 (film_url f) = Inr v \<longrightarrow>
            fst (scrape_film_worker w i f c1) =
              Inr \<lparr>index = i, title = film_title f, url = film_url f,
                   streaming = v, cached = True\<rparr>) \<and>
         (\<not> cached r \<and> streaming r = JString sv \<and> should_cache sv \<and> is_dict (cache s) \<longrightarrow>
            py_getitem (cache (collect dumps env (i, f, Inr r) s)) (url r)
              = Inr (JObject [(''title'', JString (title r)), (''streaming'', JString sv)]))"
proof -
  have "same_run (init films c1 d) (init films c2 d)"
    using assms by (simp add: same_run_def init_def)
  from exec_same [OF this, of dumps evs]
  have e: "map_option results (exec dumps evs (init films c1 d))
           = map_option results (exec dumps evs (init films c2 d))"
    by (cases "exec dumps evs (init films c1 d)"; cases "exec dumps evs (init films c2 d)")
       (simp_all add: same_run_def)
  have st: "py_getitem (cache (collect dumps env (i, f, Inr r) s)) (url r)
              = Inr (JObject [(''title'', JString (title r)), (''streaming'', JString sv)])"
    if "\<not> cached r" "streaming r = JString sv" "should_cache sv" "is_dict (cache s)"
  proof -
    from that(4) obtain kvs where "cache s = JObject kvs"
      by (cases "cache s") (auto simp: is_dict_def)
    from collect_stores_title [OF that(1,2,3) this] show ?thesis .
  qed
  from e st show ?thesis
    using worker_same [OF assms] by (simp add: scrape_film_worker_def)
qed

theorem stored_title_never_read_witness:
  "same_streaming
     (JObject [(''u'', JObject [(''title'', JString ''Dune (1984)''), (''streaming'', JString ''Netflix'')])])
     (JObject [(''u'', JObject [(''title'', JString ''Dune''), (''streaming'', JString ''Netflix'')])]) \<and>
   py_in ''u'' (JObject [(''u'', JObject [(''title'', JString ''Dune (1984)''),
                                          (''streaming'', JString ''Netflix'')])]) = Inr True \<and>
   cached_streaming (JObject [(''u'', JObject [(''title'', JString ''Dune (1984)''),
                                               (''streaming'', JString ''Netflix'')])]) ''u''
     = Inr (JString ''Netflix'') \<and>
   fst (scrape_film_worker NoDriver 1 \<lparr>film_title = ''Dune: Part Two'', film_url = ''u''\<rparr>
          (JObject [(''u'', JObject [(''title'', JString ''Dune (1984)''),
                                     (''streaming'', JString ''Netflix'')])]))
     = Inr \<lparr>index = 1, title = ''Dune: Part Two'', url = ''u'', streaming = JString ''Netflix'',
            cached = True\<rparr> \<and>
   scrape_film_worker NoDriver 1 \<lparr>film_title = ''Dune: Part Two'', film_url = ''u''\<rparr>
          (JObject [(''u'', JObject [(''title'', JString ''Dune (1984)''),
                                     (''streaming'', JString ''Netflix'')])])
     = scrape_film_worker NoDriver 1 \<lparr>film_title = ''Dune: Part Two'', film_url = ''u''\<rparr>
          (JObject [(''u'', JObject [(''title'', JString ''Dune''),
                                     (''streaming'', JString ''Netflix'')])]) \<and>
   should_cache ''Hulu'' \<and> is_dict (cache (init [] (JObject []) None)) \<and>
   py_getitem (cache (collect (\<lambda>c. ''text'') no_fault
                    (2, \<lparr>film_title = ''Alien'', film_url = ''v''\<rparr>,
                     Inr \<lparr>index = 2, title = ''Alien'', url = ''v'', streaming = JString ''Hulu'',
                          cached = False\<rparr>)
                    (init [] (JObject []) None))) ''v''
     = Inr (JObject [(''title'', JString ''Alien''), (''streaming'', JString ''Hulu'')])"
proof -
  let ?c1 = "JObject [(''u'', JObject [(''title'', JString ''Dune (1984)''), (''streaming'', JString ''Netflix'')])]"
  let ?c2 = "JObject [(''u'', JObject [(''title'', JString ''Dune''), (''streaming'', JString ''Netflix'')])]"
  let ?r = "\<lparr>index = 2, title = ''Alien'', url = ''v'', streaming = JString ''Hulu'', cached = False\<rparr>"
  have h: "same_streaming ?c1 ?c2"
    by (simp add: same_streaming_def forget_titles_def strip_title_def)
  have k: "should_cache ''Hulu''"
    by (simp add: should_cache_def startswith_def)
  have d: "is_dict (cache (init [] (JObject []) None))" by (simp add: init_def is_dict_def)
  have i: "py_in ''u'' ?c1 = Inr True" by simp
  have c: "cached_streaming ?c1 ''u'' = Inr (JString ''Netflix'')" by (simp add: cached_streaming_def)
  from stored_title_never_read [OF h, of NoDriver 1 "\<lparr>film_title = ''Dune: Part Two'', film_url = ''u''\<rparr>"
      "\<lambda>c. ''text''" "[]" "[]" None "JString ''Netflix''" ?r "''Hulu''" "init [] (JObject []) None" no_fault]
    stored_title_never_read [OF h, of NoDriver 2 "\<lparr>film_title = ''Alien'', film_url = ''v''\<rparr>"
      "\<lambda>c. ''text''" "[]" "[]" None "JString ''Netflix''" ?r "''Hulu''" "init [] (JObject []) None" no_fault]
    h k d i c
  show ?thesis by (simp add: scrape_film_worker_def cached_streaming_def)
qed

end
